theory Spec2Isabelle
  imports Main "HOL-Library.Word"
begin

unbundle bit_operations_syntax

section \<open>Remsh: a forking command server and its client\<close>

text \<open>
  The development embeds \<^verbatim>\<open>src/server.cpp\<close>, \<^verbatim>\<open>src/client.cpp\<close> and
  \<^verbatim>\<open>include/vprint.h\<close>. Each process is a function from the answers of its
  environment (the values its system and library calls return, in the order the code
  asks for them) to the final values of its variables, its output streams and the list
  of calls it made on its sockets.
\<close>

subsection \<open>Constants of the C library\<close>

definition NUL :: char where
  "NUL = CHR 0x00"

definition newline :: char where
  "newline = CHR 0x0A"

definition tab :: char where
  "tab = CHR 0x09"

text \<open>A \<^verbatim>\<open>char*\<close> read as a C string ends before its first NUL byte.\<close>

definition c_str :: "string \<Rightarrow> string" where
  "c_str buffer = takeWhile (\<lambda>c. c \<noteq> NUL) buffer"

definition EXIT_SUCCESS :: int where
  "EXIT_SUCCESS = 0"

definition EXIT_FAILURE :: int where
  "EXIT_FAILURE = 1"

text \<open>The values of \<^verbatim>\<open>errno\<close> the code compares with (Linux numbering).\<close>

definition EINTR :: int where
  "EINTR = 4"

definition ECHILD :: int where
  "ECHILD = 10"

definition ERANGE :: int where
  "ERANGE = 34"

text \<open>The two event bits of \<^verbatim>\<open>poll.h\<close> the worker tests in \<^verbatim>\<open>revents\<close> (a short).\<close>

definition POLLIN :: "16 word" where
  "POLLIN = 0x001"

definition POLLHUP :: "16 word" where
  "POLLHUP = 0x010"

text \<open>\<^verbatim>\<open>const int BUFFERSIZE = 512\<close> of the server.\<close>

definition BUFFERSIZE :: nat where
  "BUFFERSIZE = 512"

text \<open>\<^verbatim>\<open>unsigned long\<close> has 64 bits on the LP64 systems the server is built for.\<close>

definition ULONG_MAX :: nat where
  "ULONG_MAX = 2 ^ 64 - 1"

subsection \<open>Processes, their streams and their calls\<close>

text \<open>
  The calls a process makes that another process or the system can observe, in order.
  \<open>Send bs\<close> is a call of \<^verbatim>\<open>send\<close> of which the socket took the bytes \<open>bs\<close>
  (none when the call fails). \<open>Pclose_null\<close> is \<^verbatim>\<open>pclose\<close> applied to a null stream.
\<close>

datatype syscall =
    Getaddrinfo string
  | Bind nat
  | Connect nat
  | Close_unused
  | Listen nat
  | Accept
  | Write string
  | Send string
  | Popen string
  | Pclose
  | Pclose_null
  | Delete_host
  | Delete_service
  | Shutdown_RDWR
  | Close_sess
  | Kill_SIGCHLD
  | Close_listen

text \<open>
  How a process ends: it returns a status from \<^verbatim>\<open>main\<close>, it calls \<^verbatim>\<open>abort\<close>, it
  reaches a call whose behaviour the C library leaves undefined, it is killed by a signal
  whose action is the default one, or it is still waiting in a blocking call when the
  answers of the environment run out.
\<close>

datatype outcome = Exited int | Aborted | Undefined | Killed | Blocked

text \<open>
  The part of the state both programs share: the flag of \<^verbatim>\<open>vprint.h\<close>, \<^verbatim>\<open>errno\<close>,
  the two output streams and the calls made so far. Each element of \<open>stderr\<close> is one
  diagnostic; for \<^verbatim>\<open>perror\<close>, and for the message about \<^verbatim>\<open>getnameinfo\<close>, it is the
  prefix the code gives (the text the system adds for the error number is left out).
\<close>

record process =
  verboseOutput :: bool
  errno :: int
  stdout :: string
  stderr :: "string list"
  ops :: "syscall list"

text \<open>
  \<^verbatim>\<open>verboseprint\<close> of \<^verbatim>\<open>vprint.h\<close>. The caller formats the arguments: the argument
  expressions are evaluated before the call, whatever the flag is.
\<close>

definition verboseprint :: "string \<Rightarrow> 'a process_scheme \<Rightarrow> 'a process_scheme" where
  "verboseprint text st = (if \<not> verboseOutput st then st else st\<lparr>stdout := stdout st @ text\<rparr>)"

definition perror :: "string \<Rightarrow> 'a process_scheme \<Rightarrow> 'a process_scheme" where
  "perror prefix st = st\<lparr>stderr := stderr st @ [prefix]\<rparr>"

definition cerr :: "string \<Rightarrow> 'a process_scheme \<Rightarrow> 'a process_scheme" where
  "cerr text st = st\<lparr>stderr := stderr st @ [text]\<rparr>"

definition call :: "syscall \<Rightarrow> 'a process_scheme \<Rightarrow> 'a process_scheme" where
  "call c st = st\<lparr>ops := ops st @ [c]\<rparr>"

text \<open>The conversion \<^verbatim>\<open>%d\<close> of \<^verbatim>\<open>printf\<close>.\<close>

fun show_nat :: "nat \<Rightarrow> string" where
  "show_nat n =
     (if n < 10 then [''0123456789'' ! n]
      else show_nat (n div 10) @ [''0123456789'' ! (n mod 10)])"

declare show_nat.simps [simp del]

definition show_int :: "int \<Rightarrow> string" where
  "show_int i = (if i < 0 then CHR ''-'' # show_nat (nat (- i)) else show_nat (nat i))"

subsection \<open>\<^verbatim>\<open>strtoul\<close> in base 10\<close>

text \<open>
  The C library's \<^verbatim>\<open>strtoul(s, NULL, 10)\<close>: white space is skipped, one sign is accepted,
  the longest run of digits is converted; without a digit the value is 0 and \<^verbatim>\<open>errno\<close>
  is left alone; a value beyond \<^verbatim>\<open>ULONG_MAX\<close> gives \<^verbatim>\<open>ULONG_MAX\<close> and sets
  \<^verbatim>\<open>ERANGE\<close>; after a minus sign the value is negated in \<^verbatim>\<open>unsigned long\<close>. The
  second component is the value stored in \<^verbatim>\<open>errno\<close>, if any.
\<close>

definition isspace :: "char \<Rightarrow> bool" where
  "isspace c = (c \<in> set [CHR '' '', CHR 0x09, CHR 0x0A, CHR 0x0B, CHR 0x0C, CHR 0x0D])"

definition isdigit :: "char \<Rightarrow> bool" where
  "isdigit c = (c \<in> set ''0123456789'')"

definition digit_of :: "char \<Rightarrow> nat" where
  "digit_of c = of_char c - 48"

definition decimal :: "string \<Rightarrow> nat" where
  "decimal ds = foldl (\<lambda>a c. 10 * a + digit_of c) 0 ds"

definition strtoul :: "string \<Rightarrow> nat \<times> int option" where
  "strtoul s =
     (let s1 = dropWhile isspace s;
          (neg, s2) = (case s1 of
                         [] \<Rightarrow> (False, [])
                       | c # cs \<Rightarrow> if c = CHR ''-'' then (True, cs)
                                  else if c = CHR ''+'' then (False, cs)
                                  else (False, s1));
          v = decimal (takeWhile isdigit s2)
      in if ULONG_MAX < v then (ULONG_MAX, Some ERANGE)
         else if neg then ((2 ^ 64 - v) mod 2 ^ 64, None)
         else (v, None))"

text \<open>
  Where \<^verbatim>\<open>strtoul\<close> stops (what it stores through its second argument when that is
  not null): after the digits, or at the start of the string when there is no digit.
\<close>

definition strtoul_end :: "string \<Rightarrow> string" where
  "strtoul_end s =
     (let s1 = dropWhile isspace s;
          s2 = (case s1 of
                  [] \<Rightarrow> []
                | c # cs \<Rightarrow> if c = CHR ''-'' \<or> c = CHR ''+'' then cs else s1)
      in if takeWhile isdigit s2 = [] then s else dropWhile isdigit s2)"

subsection \<open>The answers of the environment\<close>

text \<open>
  One address of the list \<^verbatim>\<open>getaddrinfo\<close> returns: its port, whether \<^verbatim>\<open>socket\<close>
  succeeds for it, and whether \<^verbatim>\<open>bind\<close> (server) or \<^verbatim>\<open>connect\<close> (client) does.
\<close>

record addrinfo =
  ai_port :: nat
  ai_socket :: bool
  ai_usable :: bool

datatype gai_result = GaiError string | GaiOk "addrinfo list"

text \<open>
  \<^verbatim>\<open>ppoll\<close> with the empty signal mask. SIGCHLD is blocked everywhere else, so its handler
  runs only inside this call: \<open>Interrupted\<close> is one run of the handler, after which the call
  returns -1 with \<^verbatim>\<open>EINTR\<close>. \<open>Failed e\<close> returns -1 with \<^verbatim>\<open>errno = e\<close>.
  \<open>Returned n r\<close> returns \<open>n\<close> and stores \<open>r\<close> in \<^verbatim>\<open>revents\<close>. A call that
  ends with \<^verbatim>\<open>EINTR\<close> has polled the descriptor and found nothing: Linux stores 0 in
  \<^verbatim>\<open>revents\<close>. A call that fails otherwise leaves \<^verbatim>\<open>revents\<close> as it was.
\<close>

datatype ppoll_outcome = Interrupted | Failed int | Returned nat "16 word"

text \<open>
  \<^verbatim>\<open>recv\<close> and \<^verbatim>\<open>read\<close> on the session socket: an error (-1), or the bytes returned
  (none at end of input; never more than the size asked for).
\<close>

datatype read_result = ReadErr | ReadBytes string

text \<open>
  \<^verbatim>\<open>send\<close> on the session socket, called without \<^verbatim>\<open>MSG_NOSIGNAL\<close> in a process that
  leaves SIGPIPE at its default action: the process is killed by SIGPIPE (the peer has
  closed), or the call returns -1 or the number of bytes the socket took, which may be
  smaller than the number asked for.
\<close>

datatype send_outcome = Sigpipe | SendReturned int

datatype fork_outcome = ForkFailed | ForkChild | ForkParent

datatype waitpid_outcome = Reaped | WaitFailed int

text \<open>
  The answers one iteration of the worker's loop may ask for: \<^verbatim>\<open>ppoll\<close>, \<^verbatim>\<open>recv\<close>,
  \<^verbatim>\<open>popen\<close> (\<open>None\<close> is the null stream, \<open>Some out\<close> a stream on which the
  command writes \<open>out\<close>), and \<^verbatim>\<open>send\<close>.
\<close>

record worker_ev =
  wv_ppoll :: ppoll_outcome
  wv_recv :: read_result
  wv_popen :: "string option"
  wv_send :: send_outcome

text \<open>
  The answers one iteration of the admission loop may ask for: \<^verbatim>\<open>ppoll\<close>, whether
  \<^verbatim>\<open>accept\<close> succeeds, \<^verbatim>\<open>getnameinfo\<close> (host and service, or \<open>None\<close>),
  \<^verbatim>\<open>fork\<close>, and, in the child, the answers to its worker.
\<close>

record conn_ev =
  ev_ppoll :: ppoll_outcome
  ev_accept :: bool
  ev_names :: "(string \<times> string) option"
  ev_fork :: fork_outcome
  ev_worker :: "worker_ev list"

subsection \<open>The server: globals, signal handler, worker\<close>

record server_state = process +
  actvConns :: int
  stillHandlingRequests :: bool
  port :: string

text \<open>
  The globals of \<^verbatim>\<open>server.cpp\<close> (a forked worker has its own copy of them) and the
  handler of SIGCHLD.
\<close>

definition sigchld_handler :: "server_state \<Rightarrow> server_state" where
  "sigchld_handler st =
     (let st1 = st\<lparr>actvConns := actvConns st - 1\<rparr>
      in if actvConns st1 = 0 then st1\<lparr>stillHandlingRequests := False\<rparr> else st1)"

text \<open>The value \<^verbatim>\<open>ppoll\<close> returns, \<^verbatim>\<open>revents\<close> afterwards, and the state.\<close>

fun ppoll :: "ppoll_outcome \<Rightarrow> 16 word \<Rightarrow> server_state \<Rightarrow> int \<times> 16 word \<times> server_state" where
  "ppoll Interrupted rv st = (- 1, 0, (sigchld_handler st)\<lparr>errno := EINTR\<rparr>)"
| "ppoll (Failed e) rv st = (- 1, if e = EINTR then 0 else rv, st\<lparr>errno := e\<rparr>)"
| "ppoll (Returned n r) rv st = (int n, r, st)"

text \<open>
  \<^verbatim>\<open>fgets(buffer, n, pipe)\<close> on a stream holding \<open>out\<close>: at most \<open>n - 1\<close> bytes, up
  to and with the first newline.
\<close>

fun fgets :: "nat \<Rightarrow> string \<Rightarrow> string" where
  "fgets n [] = []"
| "fgets n (c # cs) =
     (if n \<le> 1 then [] else if c = newline then [c] else c # fgets (n - 1) cs)"

text \<open>
  The loop \<^verbatim>\<open>while (!feof(pipe)) if (fgets(...) != NULL) result.append(buffer)\<close>:
  \<^verbatim>\<open>append\<close> takes the buffer as a C string.
\<close>

function fgets_loop :: "string \<Rightarrow> string \<Rightarrow> string" where
  "fgets_loop result out =
     (if out = [] then result
      else fgets_loop (result @ c_str (fgets BUFFERSIZE out))
             (drop (length (fgets BUFFERSIZE out)) out))"
  by pat_completeness auto
termination
proof (relation "measure (\<lambda>(result, out). length out)")
  show "wf (measure (\<lambda>(result, out). length out))"
    by simp
next
  fix result out :: string
  assume "out \<noteq> []"
  then obtain c cs where "out = c # cs"
    by (cases out) auto
  then have "0 < length (fgets BUFFERSIZE out)"
    by (simp add: BUFFERSIZE_def)
  then show "((result @ c_str (fgets BUFFERSIZE out), drop (length (fgets BUFFERSIZE out)) out),
              (result, out)) \<in> measure (\<lambda>(result, out). length out)"
    using \<open>out \<noteq> []\<close> by simp
qed

declare fgets_loop.simps [simp del]

text \<open>
  What one iteration of a loop does: go round again, leave the loop by \<^verbatim>\<open>break\<close>, or
  end the process.
\<close>

datatype 'a step = Continue 'a | Break 'a | Ended outcome 'a

text \<open>
  The branch \<^verbatim>\<open>else if (sessPFD.revents & POLLIN)\<close> of \<^verbatim>\<open>handle_request\<close>. The
  stream is held by a \<^verbatim>\<open>shared_ptr<FILE>\<close> with the deleter \<^verbatim>\<open>pclose\<close>, which runs
  when the block is left, for a null stream too: a \<^verbatim>\<open>shared_ptr\<close> built from a pointer and
  a deleter owns the pointer even when it is null, and its destructor calls the deleter on
  it. \<^verbatim>\<open>pclose\<close> on a null stream is undefined. \<^verbatim>\<open>send\<close> is asked to send the
  result and its terminating NUL byte; its return value is only compared with 0, and a
  process killed inside it runs no destructor.
\<close>

definition serve_request :: "worker_ev \<Rightarrow> server_state \<Rightarrow> server_state step" where
  "serve_request e st =
     (case wv_recv e of
        ReadErr \<Rightarrow> Break st
      | ReadBytes d \<Rightarrow>
          if d = [] then Break st
          else
            let buffer = c_str d;
                st1 = verboseprint (''Read from client was: '' @ buffer @ [newline]) st
            in (case wv_popen e of
                  None \<Rightarrow>
                    Ended Undefined (call Pclose_null (perror ''popen()'' (call (Popen buffer) st1)))
                | Some out \<Rightarrow>
                    let result = fgets_loop [] out;
                        st2 = call (Popen buffer) st1
                    in (case wv_send e of
                          Sigpipe \<Rightarrow> Ended Killed (call (Send []) st2)
                        | SendReturned n \<Rightarrow>
                            let st3 = call (Send (take (nat n) (result @ [NUL]))) st2
                            in if n < 0
                               then Break (call Pclose (perror ''Error in write()'' st3))
                               else Continue (call Pclose st3))))"

text \<open>One iteration of the loop of \<^verbatim>\<open>handle_request\<close>; \<open>rv\<close> is \<^verbatim>\<open>sessPFD.revents\<close>.\<close>

definition request_step :: "worker_ev \<Rightarrow> 16 word \<times> server_state \<Rightarrow> (16 word \<times> server_state) step" where
  "request_step e s =
     (case ppoll (wv_ppoll e) (fst s) (snd s) of
        (pollval, rv, st) \<Rightarrow>
          if pollval = - 1 \<and> errno st \<noteq> EINTR
          then Break (rv, perror ''Error with ppoll() in handle_request()'' st)
          else if rv AND POLLIN \<noteq> 0
          then (case serve_request e st of
                  Continue st' \<Rightarrow> Continue (rv, st')
                | Break st' \<Rightarrow> Break (rv, st')
                | Ended oc st' \<Rightarrow> Ended oc (rv, st'))
          else if rv AND POLLHUP \<noteq> 0 then Break (rv, st)
          else Continue (rv, st))"

text \<open>
  The loop: \<open>None\<close> when it is left by \<^verbatim>\<open>break\<close>, \<open>Some Blocked\<close> when the worker
  is still waiting after the last answer.
\<close>

fun request_loop :: "worker_ev list \<Rightarrow> 16 word \<times> server_state \<Rightarrow> outcome option \<times> server_state" where
  "request_loop [] s = (Some Blocked, snd s)"
| "request_loop (e # es) s =
     (case request_step e s of
        Continue s' \<Rightarrow> request_loop es s'
      | Break s' \<Rightarrow> (None, snd s')
      | Ended oc s' \<Rightarrow> (Some oc, snd s'))"

text \<open>The five calls after the loop of \<^verbatim>\<open>handle_request\<close>.\<close>

definition teardown :: "string \<Rightarrow> string \<Rightarrow> server_state \<Rightarrow> server_state" where
  "teardown host service st =
     call Kill_SIGCHLD (call Close_sess (call Shutdown_RDWR (call Delete_service (call Delete_host
       (verboseprint (''Terminating connection from '' @ host @ '':'' @ service @ [newline]) st)))))"

text \<open>\<^verbatim>\<open>sessPFD = {}\<close>: \<^verbatim>\<open>revents\<close> starts as 0.\<close>

definition handle_request :: "string \<Rightarrow> string \<Rightarrow> worker_ev list \<Rightarrow> server_state \<Rightarrow> outcome option \<times> server_state" where
  "handle_request host service evs st =
     (case request_loop evs (0, st) of
        (None, st') \<Rightarrow> (None, teardown host service st')
      | (Some oc, st') \<Rightarrow> (Some oc, st'))"

subsection \<open>The server: options, start-up and the admission loop\<close>

text \<open>
  What \<^verbatim>\<open>getopt(argc, argv, "vhp:")\<close> returns, call after call: \<^verbatim>\<open>'p'\<close> with
  its argument, \<^verbatim>\<open>'h'\<close>, \<^verbatim>\<open>'v'\<close>, \<^verbatim>\<open>'?'\<close> (an option it does not know, or
  a missing argument), or any other character. Without arguments the list is empty, so
  the guard \<^verbatim>\<open>if (argc > 1)\<close> needs no case of its own.
\<close>

datatype sopt = SOpt_p string | SOpt_h | SOpt_v | SOpt_query | SOpt_other

definition usage :: "string \<Rightarrow> string" where
  "usage name =
     name @ '': [-p port] [-v]'' @ [newline, newline]
     @ ''Start a server that executes a user'' @ [CHR 0x27] @ ''s shell commands when they connect. The'' @ [newline]
     @ ''service can either run non-interactively, closing the connection after the batch'' @ [newline]
     @ ''job has completed; or interactively and the user terminates the connection themselves.'' @ [newline]
     @ ''Normally, the shell that will be reading the remote commands is /bin/bash on Linux'' @ [newline]
     @ ''distributions, and /bin/sh on Unix.'' @ [newline, newline]
     @ [tab] @ ''Options'' @ [tab] @ ''Description'' @ [newline]
     @ [tab] @ ''-p'' @ [tab] @ ''Run the server on the given port. It must be a decimal integer between 0-65535,'' @ [newline]
     @ [tab, tab] @ '' but it is good practive to select a port higher than 1024. Default is 8888.'' @ [newline]
     @ [tab] @ ''-v'' @ [tab] @ ''run the server verbosely. It will print status messages to stdout.'' @ [newline]"

text \<open>The option loop of \<^verbatim>\<open>main\<close>: \<open>Some\<close> when the process ends in it.\<close>

fun server_options :: "string \<Rightarrow> sopt list \<Rightarrow> server_state \<Rightarrow> outcome option \<times> server_state" where
  "server_options name [] st = (None, st)"
| "server_options name (SOpt_p optarg # opts) st =
     (case strtoul optarg of
        (portAsLong, e) \<Rightarrow>
          let st1 = (case e of None \<Rightarrow> st | Some v \<Rightarrow> st\<lparr>errno := v\<rparr>)
          in if errno st1 = ERANGE \<or> 0xffff < portAsLong
             then (Some (Exited EXIT_FAILURE), cerr (''Bad port, got: '' @ optarg @ [newline]) st1)
             else server_options name opts (st1\<lparr>port := optarg\<rparr>))"
| "server_options name (SOpt_h # opts) st =
     (Some (Exited EXIT_SUCCESS), st\<lparr>stdout := stdout st @ usage name\<rparr>)"
| "server_options name (SOpt_v # opts) st = server_options name opts (st\<lparr>verboseOutput := True\<rparr>)"
| "server_options name (SOpt_query # opts) st =
     (Some (Exited EXIT_SUCCESS), st\<lparr>stdout := stdout st @ usage name\<rparr>)"
| "server_options name (SOpt_other # opts) st = (Some Aborted, st)"

text \<open>
  The loop over the addresses: the port of the first address whose socket is bound.
  Every \<^verbatim>\<open>bind\<close> tried is recorded; a failed one is followed by the \<^verbatim>\<open>close\<close> of
  its socket.
\<close>

fun bind_loop :: "addrinfo list \<Rightarrow> server_state \<Rightarrow> nat option \<times> server_state" where
  "bind_loop [] st = (None, st)"
| "bind_loop (a # as) st =
     (if \<not> ai_socket a then bind_loop as st
      else if ai_usable a then (Some (ai_port a), call (Bind (ai_port a)) st)
      else bind_loop as (call Close_unused (call (Bind (ai_port a)) st)))"

text \<open>
  The answers to the server: \<^verbatim>\<open>argv[0]\<close>, whether \<^verbatim>\<open>sigprocmask\<close> succeeds,
  \<^verbatim>\<open>getaddrinfo\<close> as a function of the service string, the answers to the admission loop
  and those to the \<^verbatim>\<open>waitpid\<close> loop after it.
\<close>

record server_env =
  se_name :: string
  se_sigprocmask :: bool
  se_getaddrinfo :: "string \<Rightarrow> gai_result"
  se_events :: "conn_ev list"
  se_waitpid :: "waitpid_outcome list"

definition server_init :: server_state where
  "server_init =
     \<lparr>verboseOutput = False, errno = 0, stdout = [], stderr = [], ops = [],
      actvConns = 0, stillHandlingRequests = True, port = ''8888''\<rparr>"

text \<open>The two messages after the option loop and the call of \<^verbatim>\<open>getaddrinfo\<close>.\<close>

definition announce :: "server_state \<Rightarrow> server_state" where
  "announce st =
     call (Getaddrinfo (port st))
       (verboseprint (''Attempting to start service at port '' @ port st @ [newline])
          (verboseprint (''Starting server ...'' @ [newline]) st))"

text \<open>
  \<^verbatim>\<open>main\<close> from the end of the option loop up to and with \<^verbatim>\<open>listen\<close>:
  \<open>None\<close> when the server is listening.
\<close>

definition open_listener :: "server_env \<Rightarrow> server_state \<Rightarrow> outcome option \<times> server_state" where
  "open_listener env st =
     (case se_getaddrinfo env (port st) of
        GaiError msg \<Rightarrow>
          (Some (Exited EXIT_FAILURE), cerr (''Error in gettaddrinfo(): '' @ msg @ [newline]) (announce st))
      | GaiOk addrs \<Rightarrow>
          (case bind_loop addrs (announce st) of
             (None, st4) \<Rightarrow> (Some (Exited EXIT_FAILURE), perror ''Could not bind'' st4)
           | (Some p, st4) \<Rightarrow>
               (None, call (Listen 64)
                  (verboseprint (''Service started. Listening on port '' @ port st4 @ [newline]) st4))))"

text \<open>\<^verbatim>\<open>main\<close> up to and with \<^verbatim>\<open>listen\<close>.\<close>

definition server_startup :: "sopt list \<Rightarrow> server_env \<Rightarrow> outcome option \<times> server_state" where
  "server_startup opts env =
     (if \<not> se_sigprocmask env then (Some (Exited EXIT_FAILURE), perror ''sigprocmask()'' server_init)
      else
        (case server_options (se_name env) opts server_init of
           (Some oc, st) \<Rightarrow> (Some oc, st)
         | (None, st) \<Rightarrow> open_listener env st))"

text \<open>
  The host and the service of the peer: what \<^verbatim>\<open>getnameinfo\<close> found, or the two
  placeholders the code copies in when it fails.
\<close>

definition peer :: "conn_ev \<Rightarrow> string \<times> string" where
  "peer e = (case ev_names e of Some hs \<Rightarrow> hs | None \<Rightarrow> (''UnkownHost'', ''UnkownPort''))"

text \<open>From \<^verbatim>\<open>getnameinfo\<close> to the \<^verbatim>\<open>verboseprint\<close> before \<^verbatim>\<open>fork\<close>.\<close>

definition identify :: "conn_ev \<Rightarrow> server_state \<Rightarrow> server_state" where
  "identify e st =
     verboseprint (''Received connection from '' @ fst (peer e) @ '':'' @ snd (peer e) @ ''.'' @ [newline])
       (case ev_names e of Some hs \<Rightarrow> st | None \<Rightarrow> cerr ''Error in getnameinfo(): '' st)"

text \<open>
  The branch \<^verbatim>\<open>else if (pollval > 0)\<close> of the main loop. In the child
  \<^verbatim>\<open>handle_request\<close> runs and \<^verbatim>\<open>main\<close> returns; in the parent the counter is
  incremented in the argument of \<^verbatim>\<open>verboseprint\<close>.
\<close>

definition admit :: "conn_ev \<Rightarrow> server_state \<Rightarrow> server_state step" where
  "admit e st =
     (if \<not> ev_accept e then Break (perror ''Accept'' st)
      else
        let st3 = identify e (call Accept st)
        in (case ev_fork e of
              ForkFailed \<Rightarrow> Ended Aborted (cerr (''Could not fork process. Aborting.'' @ [newline]) st3)
            | ForkChild \<Rightarrow>
                (case handle_request (fst (peer e)) (snd (peer e)) (ev_worker e) st3 of
                   (None, st4) \<Rightarrow> Ended (Exited EXIT_SUCCESS) st4
                 | (Some oc, st4) \<Rightarrow> Ended oc st4)
            | ForkParent \<Rightarrow>
                let st4 = st3\<lparr>actvConns := actvConns st3 + 1\<rparr>
                in Continue (verboseprint (''Active connections: '' @ show_int (actvConns st4) @ [newline]) st4)))"

text \<open>
  One iteration of the main loop. \<^verbatim>\<open>errno\<close> is tested first, whatever \<^verbatim>\<open>ppoll\<close>
  returned.
\<close>

definition admission_step :: "conn_ev \<Rightarrow> server_state \<Rightarrow> server_state step" where
  "admission_step e st0 =
     (case ppoll (ev_ppoll e) 0 st0 of
        (pollval, rv, st) \<Rightarrow>
          if errno st = EINTR then Break st
          else if pollval = - 1 then Break (perror ''Error in ppoll()'' st)
          else if 0 < pollval then admit e st
          else if stillHandlingRequests st = False then Break st
          else Continue st)"

fun main_loop :: "conn_ev list \<Rightarrow> server_state \<Rightarrow> outcome option \<times> server_state" where
  "main_loop [] st = (Some Blocked, st)"
| "main_loop (e # es) st =
     (case admission_step e st of
        Continue st' \<Rightarrow> main_loop es st'
      | Break st' \<Rightarrow> (None, st')
      | Ended oc st' \<Rightarrow> (Some oc, st'))"

text \<open>
  The loop \<^verbatim>\<open>while ((pid = waitpid(WAIT_ANY, NULL, 0)) != 0) if (errno == ECHILD) break\<close>:
  a blocking \<^verbatim>\<open>waitpid\<close> returns the identifier of a child that ended, or -1. The result
  is whether the loop was left.
\<close>

fun mop_up :: "waitpid_outcome list \<Rightarrow> server_state \<Rightarrow> bool \<times> server_state" where
  "mop_up [] st = (False, st)"
| "mop_up (w # ws) st =
     (let st1 = (case w of Reaped \<Rightarrow> st | WaitFailed e \<Rightarrow> st\<lparr>errno := e\<rparr>)
      in if errno st1 = ECHILD then (True, st1) else mop_up ws st1)"

text \<open>\<^verbatim>\<open>main\<close> from the main loop to its end.\<close>

definition serve :: "server_env \<Rightarrow> server_state \<Rightarrow> outcome \<times> server_state" where
  "serve env st =
     (case main_loop (se_events env) st of
        (Some oc, st1) \<Rightarrow> (oc, st1)
      | (None, st1) \<Rightarrow>
          (case mop_up (se_waitpid env) st1 of
             (False, st2) \<Rightarrow> (Blocked, st2)
           | (True, st2) \<Rightarrow>
               (Exited 0, call Close_listen (verboseprint (''Shutting down server.'' @ [newline]) st2))))"

text \<open>\<^verbatim>\<open>main\<close> of the server.\<close>

definition server_main :: "sopt list \<Rightarrow> server_env \<Rightarrow> outcome \<times> server_state" where
  "server_main opts env =
     (case server_startup opts env of
        (Some oc, st) \<Rightarrow> (oc, st)
      | (None, st) \<Rightarrow> serve env st)"

subsection \<open>The client\<close>

text \<open>
  What \<^verbatim>\<open>getopt(argc, argv, ":vh:p:c:?")\<close> returns: an option with its argument,
  \<^verbatim>\<open>'v'\<close>, \<^verbatim>\<open>'?'\<close>, \<^verbatim>\<open>':'\<close> (a missing argument), or any other character.
\<close>

datatype copt = Opt_h string | Opt_p string | Opt_c string | Opt_v | Opt_query | Opt_colon | Opt_other

record client_state = process +
  c_host :: string
  c_service :: string
  command :: string
  noninteractive :: bool
  bytesread :: "32 word"

definition client_usage :: "string \<Rightarrow> string" where
  "client_usage name =
     ''Usage: '' @ name @ '' -h host'' @ [newline]
     @ [tab] @ ''[-p port]'' @ [newline]
     @ [tab] @ ''[-c command]'' @ [newline]
     @ [newline] @ ''Connect to a remote shell server listening on the host and port.'' @ [newline]
     @ ''The commands are ran in whatever the server'' @ [CHR 0x27] @ ''s default shell is,'' @ [newline]
     @ ''normally this is /bin/bash for most Linux distributions and /bin/sh'' @ [newline]
     @ ''for Unix.''
     @ [newline, newline, tab] @ ''OPTIONS  |  DESCRIPTION'' @ [newline]
     @ [tab] @ ''-h'' @ [tab] @ ''the address of the target server. This can either'' @ [newline]
     @ [tab, tab] @ ''  be a hostname or a numeric IP address.'' @ [newline]
     @ [tab] @ ''-p'' @ [tab] @ ''the port the service is running on. Defaulted to 8888.'' @ [newline]
     @ [tab] @ ''-c'' @ [tab] @ ''run the shell non-interactively with a command.'' @ [newline]
     @ [tab] @ ''-?'' @ [tab] @ ''display this help message.'' @ [newline]"

text \<open>The option loop of the client: \<open>Some\<close> when the process ends in it.\<close>

fun client_options :: "string \<Rightarrow> copt list \<Rightarrow> client_state \<Rightarrow> outcome option \<times> client_state" where
  "client_options name [] st = (None, st)"
| "client_options name (Opt_h optarg # opts) st = client_options name opts (st\<lparr>c_host := optarg\<rparr>)"
| "client_options name (Opt_p optarg # opts) st =
     (case strtoul optarg of
        (portAsLong, e) \<Rightarrow>
          let st1 = (case e of None \<Rightarrow> st | Some v \<Rightarrow> st\<lparr>errno := v\<rparr>)
          in if errno st1 = ERANGE \<or> 0xffff < portAsLong
             then (Some (Exited EXIT_FAILURE), cerr (''Bad port, got: '' @ optarg @ [newline]) st1)
             else client_options name opts (st1\<lparr>c_service := optarg\<rparr>))"
| "client_options name (Opt_c optarg # opts) st =
     client_options name opts (st\<lparr>command := optarg, noninteractive := True\<rparr>)"
| "client_options name (Opt_v # opts) st = client_options name opts (st\<lparr>verboseOutput := True\<rparr>)"
| "client_options name (Opt_query # opts) st = (Some (Exited EXIT_SUCCESS), cerr (client_usage name) st)"
| "client_options name (Opt_colon # opts) st = (Some (Exited EXIT_FAILURE), st)"
| "client_options name (Opt_other # opts) st = (Some Aborted, st)"

text \<open>The loop over the addresses; \<open>i\<close> counts them from 1.\<close>

fun connect_loop :: "addrinfo list \<Rightarrow> int \<Rightarrow> client_state \<Rightarrow> bool \<times> client_state" where
  "connect_loop [] i st = (False, st)"
| "connect_loop (a # as) i st =
     (if \<not> ai_socket a then connect_loop as (i + 1) st
      else
        let st1 = call (Connect (ai_port a)) (verboseprint ([tab] @ ''Attempt '' @ show_int i @ '' ... '') st)
        in if ai_usable a then (True, verboseprint (''Success.'' @ [newline]) st1)
           else connect_loop as (i + 1) (call Close_unused (verboseprint (''Failed.'' @ [newline]) st1)))"

text \<open>
  The inner loop, which receives one response. Each chunk is counted and written to
  the standard output as a C string, followed by a newline; the loop is left after a chunk
  whose last byte is NUL, or at end of input. A failed \<^verbatim>\<open>read\<close> ends the process.
  The count \<^verbatim>\<open>bytesread\<close> is an \<^verbatim>\<open>int\<close> of 32 bits, read with \<open>sint\<close>; the sum
  wraps here where C leaves the overflow undefined, and what is proved of the count is
  proved where it stays below \<open>2 ^ 31\<close>.
\<close>

fun recv_loop :: "read_result list \<Rightarrow> client_state \<Rightarrow> outcome option \<times> client_state" where
  "recv_loop [] st = (Some Blocked, st)"
| "recv_loop (ReadErr # rs) st =
     (Some (Exited EXIT_FAILURE), cerr (''Did not read succesfully'' @ [newline] @ ''.'') st)"
| "recv_loop (ReadBytes buffer # rs) st =
     (if buffer = [] then (None, st)
      else
        let st1 = st\<lparr>bytesread := bytesread st + of_nat (length buffer),
                     stdout := stdout st @ c_str buffer @ [newline]\<rparr>
        in if last buffer = NUL then (None, st1) else recv_loop rs st1)"

text \<open>
  The answers one iteration of the outer loop may ask for: \<^verbatim>\<open>getline\<close> (\<open>Some l\<close>
  stores the line \<open>l\<close> in \<^verbatim>\<open>command\<close>; \<open>None\<close> is a failed stream, which leaves
  \<^verbatim>\<open>command\<close> as it was), whether \<^verbatim>\<open>write\<close> succeeds, and the results of the
  \<^verbatim>\<open>read\<close> calls of this iteration.
\<close>

record round =
  r_line :: "string option"
  r_write :: bool
  r_reads :: "read_result list"

text \<open>The end of \<^verbatim>\<open>main\<close>, after the outer loop.\<close>

definition client_teardown :: "client_state \<Rightarrow> client_state" where
  "client_teardown st =
     call Close_sess (call Shutdown_RDWR (verboseprint (''Shutting down client...'' @ [newline]) st))"

text \<open>
  The outer loop: prompt and \<^verbatim>\<open>getline\<close> in interactive mode, the test for
  \<^verbatim>\<open>exit\<close>, \<^verbatim>\<open>write\<close> of the command with its NUL byte, the inner loop, and the
  message with the number of bytes. The loop is left by \<^verbatim>\<open>break\<close> at \<^verbatim>\<open>exit\<close>, at a
  failed \<^verbatim>\<open>write\<close> and after the one command of the non-interactive mode; \<^verbatim>\<open>main\<close>
  then shuts the socket down, closes it and returns \<^verbatim>\<open>EXIT_SUCCESS\<close>. When the
  answers run out the client is waiting for the next one.
\<close>

fun client_loop :: "round list \<Rightarrow> client_state \<Rightarrow> outcome \<times> client_state" where
  "client_loop [] st =
     (if noninteractive st \<and> command st = ''exit''
      then (Exited EXIT_SUCCESS, client_teardown (st\<lparr>bytesread := 0\<rparr>))
      else (Blocked, st\<lparr>bytesread := 0\<rparr>))"
| "client_loop (r # rs) st =
     (let st0 = st\<lparr>bytesread := 0\<rparr>;
          st1 = (if noninteractive st0 then st0
                 else (case r_line r of
                         None \<Rightarrow> st0\<lparr>stdout := stdout st0 @ ''$ ''\<rparr>
                       | Some l \<Rightarrow> st0\<lparr>stdout := stdout st0 @ ''$ '', command := l\<rparr>))
      in if command st1 = ''exit'' then (Exited EXIT_SUCCESS, client_teardown st1)
         else
           let st2 = call (Write (command st1 @ [NUL])) st1
           in if \<not> r_write r
              then (Exited EXIT_SUCCESS, client_teardown (perror ''Error in write() to server'' st2))
              else
                (case recv_loop (r_reads r) st2 of
                   (Some oc, st3) \<Rightarrow> (oc, st3)
                 | (None, st3) \<Rightarrow>
                     let st4 = verboseprint
                                 (''Received response from server of '' @ show_int (sint (bytesread st3))
                                  @ '' bytes'' @ [newline]) st3
                     in if noninteractive st4 then (Exited EXIT_SUCCESS, client_teardown st4)
                        else client_loop rs st4))"

text \<open>
  The answers to the client: \<^verbatim>\<open>argv[0]\<close>, \<^verbatim>\<open>argc\<close>, \<^verbatim>\<open>getaddrinfo\<close> as a
  function of host and service, and the answers to the outer loop.
\<close>

record client_env =
  ce_name :: string
  ce_argc :: nat
  ce_getaddrinfo :: "string \<Rightarrow> string \<Rightarrow> gai_result"
  ce_rounds :: "round list"

text \<open>\<^verbatim>\<open>main\<close> sets \<^verbatim>\<open>verboseOutput = true\<close> before it reads the options.\<close>

definition client_init :: client_state where
  "client_init =
     \<lparr>verboseOutput = True, errno = 0, stdout = [], stderr = [], ops = [],
      c_host = ''127.0.0.1'', c_service = ''8888'', command = [], noninteractive = False,
      bytesread = 0\<rparr>"

text \<open>
  \<^verbatim>\<open>main\<close> of the client: the test of \<^verbatim>\<open>argc\<close>, the options, name resolution,
  the connection to the first address that accepts it, and the outer loop.
\<close>

definition client_main :: "copt list \<Rightarrow> client_env \<Rightarrow> outcome \<times> client_state" where
  "client_main opts env =
     (if ce_argc env < 2 then (Exited EXIT_FAILURE, cerr (client_usage (ce_name env)) client_init)
      else
        (case client_options (ce_name env) opts client_init of
           (Some oc, st) \<Rightarrow> (oc, st)
         | (None, st) \<Rightarrow>
             let st1 = call (Getaddrinfo (c_service st)) (verboseprint (''Starting client ...'' @ [newline]) st)
             in (case ce_getaddrinfo env (c_host st1) (c_service st1) of
                   GaiError msg \<Rightarrow>
                     (Exited EXIT_FAILURE, cerr (''Failed in getaddrinfo(). '' @ msg @ [newline]) st1)
                 | GaiOk addrs \<Rightarrow>
                     (case connect_loop addrs 1
                             (verboseprint (''Connecting to '' @ c_host st1 @ '':'' @ c_service st1
                                            @ '' ...'' @ [newline]) st1) of
                        (False, st2) \<Rightarrow>
                          (Exited EXIT_FAILURE,
                           cerr (''Could not connect to '' @ c_host st2 @ '':'' @ c_service st2 @ [newline]) st2)
                      | (True, st2) \<Rightarrow> client_loop (ce_rounds env) st2))))"

subsection \<open>Scenarios and observations\<close>

text \<open>The state an iteration of a loop ends in.\<close>

primrec state_of :: "'a step \<Rightarrow> 'a" where
  "state_of (Continue s) = s"
| "state_of (Break s) = s"
| "state_of (Ended oc s) = s"

text \<open>
  What a server process shows to its peers and to the system: everything but the flag
  \<^verbatim>\<open>verboseOutput\<close> and the standard output.
\<close>

definition observable :: "server_state \<Rightarrow> server_state" where
  "observable st = st\<lparr>verboseOutput := False, stdout := []\<rparr>"

text \<open>
  An iteration of the worker's loop in which nothing arrives: \<^verbatim>\<open>ppoll\<close> is interrupted,
  or returns with neither \<^verbatim>\<open>POLLIN\<close> nor \<^verbatim>\<open>POLLHUP\<close> set.
\<close>

definition idle :: "worker_ev \<Rightarrow> bool" where
  "idle e =
     (case wv_ppoll e of
        Interrupted \<Rightarrow> True
      | Failed er \<Rightarrow> er = EINTR
      | Returned n r \<Rightarrow> r AND POLLIN = 0 \<and> r AND POLLHUP = 0)"

text \<open>The calls that end a session, in the order of \<^verbatim>\<open>handle_request\<close>.\<close>

definition session_end :: "syscall list" where
  "session_end = [Delete_host, Delete_service, Shutdown_RDWR, Close_sess, Kill_SIGCHLD]"

text \<open>The parent's side of a connection from \<open>h\<close>, port \<open>s\<close>: accepted, worker forked.\<close>

definition accepted :: "string \<Rightarrow> string \<Rightarrow> conn_ev" where
  "accepted h s =
     \<lparr>ev_ppoll = Returned 1 POLLIN, ev_accept = True, ev_names = Some (h, s),
      ev_fork = ForkParent, ev_worker = []\<rparr>"

text \<open>The wait of the admission loop is interrupted by the signal of a worker that ended.\<close>

definition notified :: conn_ev where
  "notified =
     \<lparr>ev_ppoll = Interrupted, ev_accept = False, ev_names = None,
      ev_fork = ForkParent, ev_worker = []\<rparr>"

text \<open>
  A \<^verbatim>\<open>getaddrinfo\<close> for the scenarios, after the one of glibc: an empty service is no
  service (port 0); a service that \<^verbatim>\<open>strtoul\<close> reads to its end is a port number, of
  which the low 16 bits are kept; any other is a name of the services database, of which
  \<^verbatim>\<open>http\<close> (port 80) stands for all.
\<close>

definition services :: "string \<Rightarrow> gai_result" where
  "services s =
     (if s = [] then GaiOk [\<lparr>ai_port = 0, ai_socket = True, ai_usable = True\<rparr>]
      else if strtoul_end s = []
      then GaiOk [\<lparr>ai_port = fst (strtoul s) mod 65536, ai_socket = True, ai_usable = True\<rparr>]
      else if s = ''http'' then GaiOk [\<lparr>ai_port = 80, ai_socket = True, ai_usable = True\<rparr>]
      else GaiError ''Servname not supported for ai_socktype'')"

text \<open>
  Two clients connect; then one worker ends and its signal interrupts the wait; the
  other worker ends later, and \<^verbatim>\<open>waitpid\<close> reaps both.
\<close>

definition two_workers :: server_env where
  "two_workers =
     \<lparr>se_name = ''server'', se_sigprocmask = True, se_getaddrinfo = services,
      se_events = [accepted ''localhost'' ''40000'', accepted ''localhost'' ''40002'', notified],
      se_waitpid = [Reaped, Reaped, WaitFailed ECHILD]\<rparr>"

text \<open>One client connects and its worker ends.\<close>

definition one_worker :: server_env where
  "one_worker =
     \<lparr>se_name = ''server'', se_sigprocmask = True, se_getaddrinfo = services,
      se_events = [accepted ''localhost'' ''40000'', notified],
      se_waitpid = [Reaped, WaitFailed ECHILD]\<rparr>"

text \<open>
  The worker's socket is readable and \<^verbatim>\<open>recv\<close> returns \<open>d\<close>; \<^verbatim>\<open>popen\<close> answers
  \<open>out\<close>; \<^verbatim>\<open>send\<close> takes all it is given.
\<close>

definition request :: "string \<Rightarrow> string option \<Rightarrow> worker_ev" where
  "request d out =
     \<lparr>wv_ppoll = Returned 1 POLLIN, wv_recv = ReadBytes d, wv_popen = out,
      wv_send = SendReturned (case out of None \<Rightarrow> 0
                              | Some x \<Rightarrow> int (length (fgets_loop [] x)) + 1)\<rparr>"

text \<open>The client runs \<^verbatim>\<open>-c "echo 42"\<close>; the response arrives in one \<^verbatim>\<open>read\<close>.\<close>

definition echo_42 :: client_env where
  "echo_42 =
     \<lparr>ce_name = ''client'', ce_argc = 3,
      ce_getaddrinfo = (\<lambda>h s. GaiOk [\<lparr>ai_port = 8888, ai_socket = True, ai_usable = True\<rparr>]),
      ce_rounds = [\<lparr>r_line = None, r_write = True, r_reads = [ReadBytes (''42'' @ [newline, NUL])]\<rparr>]\<rparr>"

section \<open>Properties\<close>

lemmas proc_defs = verboseprint_def perror_def cerr_def call_def

lemmas loop_defs = admission_step_def admit_def identify_def peer_def request_step_def
  serve_request_def

lemmas scenario_defs = accepted_def notified_def services_def two_workers_def one_worker_def
  request_def echo_42_def

subsection \<open>The admission loop and the counter of active connections\<close>

lemma admission_step_Interrupted:
  "ev_ppoll e = Interrupted \<Longrightarrow> admission_step e st = Break ((sigchld_handler st)\<lparr>errno := EINTR\<rparr>)"
  by (simp add: admission_step_def)

text \<open>
  In the parent an iteration that goes round again never lowers the counter, and the loop
  is left after at most one run of the handler.
\<close>

lemma admission_step_keeps_counter:
  "admission_step e st = Continue st' \<Longrightarrow> actvConns st \<le> actvConns st'"
  by (cases "ev_ppoll e")
     (auto simp: admission_step_def admit_def identify_def proc_defs Let_def sigchld_handler_def
       split: if_splits fork_outcome.splits prod.splits option.splits)

lemma admission_step_one_decrement:
  "admission_step e st = Break st' \<Longrightarrow> actvConns st - 1 \<le> actvConns st'"
  by (cases "ev_ppoll e")
     (auto simp: admission_step_def admit_def identify_def proc_defs Let_def sigchld_handler_def
       split: if_splits fork_outcome.splits prod.splits option.splits)

lemma main_loop_one_decrement:
  "main_loop evs st = (None, st') \<Longrightarrow> actvConns st - 1 \<le> actvConns st'"
proof (induction evs arbitrary: st)
  case Nil
  then show ?case by simp
next
  case (Cons e evs)
  show ?case
  proof (cases "admission_step e st")
    case (Continue st1)
    with Cons.prems have "main_loop evs st1 = (None, st')" by simp
    from Cons.IH [OF this] admission_step_keeps_counter [OF Continue] show ?thesis by simp
  next
    case (Break st1)
    with Cons.prems admission_step_one_decrement [OF Break] show ?thesis by simp
  next
    case (Ended oc st1)
    with Cons.prems show ?thesis by simp
  qed
qed

text \<open>
  Claim C1 says that the counter of active connections is never negative, that it is the
  number of workers spawned whose signal has not been handled, and that it comes back to
  zero once every worker has ended, at which point the admission loop ends the process.
  The last part does not hold of the code. The loop tests \<^verbatim>\<open>errno == EINTR\<close> before
  anything else and leaves, so the first signal handled is also the last: SIGCHLD is blocked
  again when \<^verbatim>\<open>ppoll\<close> returns and the \<^verbatim>\<open>waitpid\<close> loop never unblocks it. With two
  workers the process ends with status 0 while the counter is 1 and
  \<^verbatim>\<open>stillHandlingRequests\<close> is still true.
\<close>

theorem two_workers_counter_stays_one:
  "server_main [] two_workers =
     (Exited 0,
      server_init\<lparr>errno := ECHILD,
                  ops := [Getaddrinfo ''8888'', Bind 8888, Listen 64, Accept, Accept, Close_listen],
                  actvConns := 1\<rparr>)"
  by (simp add: server_main_def server_startup_def open_listener_def announce_def serve_def server_init_def
      loop_defs sigchld_handler_def proc_defs scenario_defs strtoul_def strtoul_end_def
      isspace_def ULONG_MAX_def isdigit_def decimal_def digit_of_def EINTR_def ECHILD_def POLLIN_def)

text \<open>
  Claim C2 says that a wait interrupted by a worker's signal ends the admission loop only
  if \<^verbatim>\<open>stillHandlingRequests\<close> has been cleared (the counter has reached zero), and that
  the loop goes on otherwise. The code leaves the loop at every interrupted wait: with two
  active connections the handler brings the counter to 1, the flag stays set, and the
  iteration is a \<^verbatim>\<open>break\<close>.
\<close>

theorem interrupted_wait_leaves_loop:
  "admission_step notified (server_init\<lparr>actvConns := 2\<rparr>)
     = Break (server_init\<lparr>errno := EINTR, actvConns := 1\<rparr>)
   \<and> stillHandlingRequests (state_of (admission_step notified (server_init\<lparr>actvConns := 2\<rparr>)))"
  by (simp add: admission_step_def notified_def sigchld_handler_def server_init_def)

subsection \<open>The port option\<close>

text \<open>
  A decimal string up to 65535 passes the check of the option loop unchanged, and a
  string whose value is larger ends the process before any call.
\<close>

lemma isdigit_not_space: "isdigit c \<Longrightarrow> \<not> isspace c \<and> c \<noteq> CHR ''-'' \<and> c \<noteq> CHR ''+''"
  by (auto simp: isdigit_def isspace_def)

lemma strtoul_decimal:
  assumes "s \<noteq> []" and "list_all isdigit s" and "decimal s \<le> 65535"
  shows "strtoul s = (decimal s, None)"
proof -
  from assms(1) obtain c cs where s: "s = c # cs" by (cases s) auto
  with assms(2) have c: "isdigit c" by simp
  from assms(2) have digits: "takeWhile isdigit s = s"
    by (simp add: takeWhile_eq_all_conv list_all_iff)
  from c s have spaces: "dropWhile isspace s = s"
    using isdigit_not_space by simp
  from c s have sign: "(case s of [] \<Rightarrow> (False, [])
      | c # cs \<Rightarrow> if c = CHR ''-'' then (True, cs) else if c = CHR ''+'' then (False, cs) else (False, s))
      = (False, s)"
    using isdigit_not_space by simp
  from assms(3) have small: "\<not> ULONG_MAX < decimal s"
    by (simp add: ULONG_MAX_def)
  show ?thesis
    by (simp add: strtoul_def Let_def spaces sign digits small)
qed

lemma decimal_port_accepted:
  assumes "s \<noteq> []" and "list_all isdigit s" and "decimal s \<le> 65535" and "errno st \<noteq> ERANGE"
  shows "server_options name [SOpt_p s] st = (None, st\<lparr>port := s\<rparr>)"
  using assms by (simp add: strtoul_decimal)

lemma large_port_rejected:
  assumes "65535 < fst (strtoul s)" and "se_sigprocmask env"
  shows "fst (server_startup [SOpt_p s] env) = Some (Exited EXIT_FAILURE)
         \<and> ops (snd (server_startup [SOpt_p s] env)) = []"
  using assms
  by (cases "strtoul s") (auto simp: server_startup_def server_init_def cerr_def split: option.splits)

text \<open>
  Claim C5 says that a string given to \<^verbatim>\<open>-p\<close> that is not the decimal representation of
  an integer between 0 and 65535 makes the server exit with a non-zero status before it
  tries to bind; the usage text of the server asks for a decimal integer too. The code
  checks only the value \<^verbatim>\<open>strtoul\<close> returns, which is 0 for a string without a leading
  digit, and then hands the string itself to \<^verbatim>\<open>getaddrinfo\<close>. A service name is
  therefore accepted: with \<^verbatim>\<open>-p http\<close> the server binds port 80 and listens.
\<close>

theorem service_name_passes_port_check:
  "server_startup [SOpt_p ''http''] one_worker =
     (None, server_init\<lparr>ops := [Getaddrinfo ''http'', Bind 80, Listen 64], port := ''http''\<rparr>)"
  by (simp add: server_startup_def open_listener_def announce_def server_init_def strtoul_def
      strtoul_end_def isspace_def
      ULONG_MAX_def ERANGE_def proc_defs scenario_defs isdigit_def decimal_def digit_of_def)

subsection \<open>The worker\<close>

text \<open>
  The loop of the worker makes none of the calls that end a session; when it is left by
  \<^verbatim>\<open>break\<close> they follow, once each. The worker ends inside the loop only at a null
  stream, or killed inside \<^verbatim>\<open>send\<close>.
\<close>

lemma serve_request_ops:
  "\<exists>mid. ops (state_of (serve_request e st)) = ops st @ mid \<and> set mid \<inter> set session_end = {}"
  by (auto simp: serve_request_def session_end_def proc_defs Let_def
      split: read_result.splits option.splits send_outcome.splits)

lemma ppoll_ops: "ops (snd (snd (ppoll po rv st))) = ops st"
  by (cases po) (simp_all add: sigchld_handler_def Let_def)

lemma request_step_ops:
  "\<exists>mid. ops (snd (state_of (request_step e (rv, st)))) = ops st @ mid
         \<and> set mid \<inter> set session_end = {}"
proof -
  obtain p r st1 where 1: "ppoll (wv_ppoll e) rv st = (p, r, st1)"
    by (cases "ppoll (wv_ppoll e) rv st") auto
  with ppoll_ops [of "wv_ppoll e" rv st] have 2: "ops st1 = ops st" by simp
  from serve_request_ops [of e st1] obtain mid
    where 3: "ops (state_of (serve_request e st1)) = ops st1 @ mid" "set mid \<inter> set session_end = {}"
    by blast
  show ?thesis
  proof (cases "\<not> (p = - 1 \<and> errno st1 \<noteq> EINTR) \<and> r AND POLLIN \<noteq> 0")
    case True
    with 1 2 3 show ?thesis
      by (cases "serve_request e st1") (auto simp: request_step_def)
  next
    case False
    with 1 2 show ?thesis
      by (auto simp: request_step_def perror_def)
  qed
qed

lemma request_loop_ops:
  "\<exists>mid. ops (snd (request_loop evs (rv, st))) = ops st @ mid \<and> set mid \<inter> set session_end = {}"
proof (induction evs arbitrary: rv st)
  case Nil
  then show ?case by simp
next
  case (Cons e evs)
  from request_step_ops [of e rv st] obtain mid
    where 1: "ops (snd (state_of (request_step e (rv, st)))) = ops st @ mid"
      "set mid \<inter> set session_end = {}"
    by blast
  show ?case
  proof (cases "request_step e (rv, st)")
    case (Continue s1)
    obtain r1 st1 where s1: "s1 = (r1, st1)" by (cases s1)
    from Cons.IH [of r1 st1] obtain mid'
      where 2: "ops (snd (request_loop evs (r1, st1))) = ops st1 @ mid'"
        "set mid' \<inter> set session_end = {}"
      by blast
    from Continue s1 1 2 show ?thesis
      by (intro exI [of _ "mid @ mid'"]) auto
  next
    case (Break s1)
    with 1 show ?thesis by auto
  next
    case (Ended oc s1)
    with 1 show ?thesis by auto
  qed
qed

lemma break_runs_session_end:
  assumes "fst (handle_request host service evs st) = None"
  shows "\<exists>mid. ops (snd (handle_request host service evs st)) = ops st @ mid @ session_end
           \<and> set mid \<inter> set session_end = {}"
proof -
  obtain oc st1 where 1: "request_loop evs (0, st) = (oc, st1)"
    by (cases "request_loop evs (0, st)") auto
  with assms have 2: "oc = None"
    by (cases oc) (simp_all add: handle_request_def)
  from request_loop_ops [of evs 0 st] 1 obtain mid
    where 3: "ops st1 = ops st @ mid" "set mid \<inter> set session_end = {}"
    by auto
  from 1 2 3 show ?thesis
    by (intro exI [of _ mid]) (simp add: handle_request_def teardown_def session_end_def proc_defs)
qed

lemma serve_request_Ended:
  "serve_request e st = Ended oc st' \<Longrightarrow>
     oc = Undefined \<and> wv_popen e = None \<or> oc = Killed \<and> wv_send e = Sigpipe"
  by (auto simp: serve_request_def Let_def
      split: read_result.splits option.splits send_outcome.splits if_splits)

lemma request_step_Ended:
  "request_step e s = Ended oc s' \<Longrightarrow>
     oc = Undefined \<and> wv_popen e = None \<or> oc = Killed \<and> wv_send e = Sigpipe"
  by (auto simp: request_step_def split: prod.splits if_splits step.splits
      dest: serve_request_Ended)

lemma worker_ends_only_at_null_stream:
  "fst (request_loop evs s) = Some oc \<Longrightarrow>
     oc = Blocked \<or> oc = Undefined \<and> (\<exists>e \<in> set evs. wv_popen e = None)
     \<or> oc = Killed \<and> (\<exists>e \<in> set evs. wv_send e = Sigpipe)"
proof (induction evs arbitrary: s)
  case Nil
  then show ?case by simp
next
  case (Cons e evs)
  show ?case
  proof (cases "request_step e s")
    case (Continue s1)
    with Cons.prems Cons.IH [of s1] show ?thesis by auto
  next
    case (Break s1)
    with Cons.prems show ?thesis by simp
  next
    case (Ended oc' s1)
    with Cons.prems request_step_Ended [OF Ended] show ?thesis by auto
  qed
qed

text \<open>
  Claim C7 says that on every exit of the worker's loop, a failure to start the subprocess
  among them, the worker frees the two strings, shuts the session socket down, closes it
  once and sends one signal to the parent. When \<^verbatim>\<open>popen\<close> returns a null stream the
  code reports the error and leaves the block, at which point the deleter of the
  \<^verbatim>\<open>shared_ptr\<close> calls \<^verbatim>\<open>pclose\<close> on the null stream: the behaviour is undefined from
  there on, and none of the five calls has been made.
\<close>

theorem popen_failure_skips_teardown:
  "handle_request ''localhost'' ''40000'' [request (''ls'' @ [NUL]) None] server_init =
     (Some Undefined, server_init\<lparr>stderr := [''popen()''], ops := [Popen ''ls'', Pclose_null]\<rparr>)"
  by (simp add: handle_request_def request_step_def serve_request_def server_init_def c_str_def
      NUL_def POLLIN_def proc_defs scenario_defs)

text \<open>
  Claim C6 says that a client that shuts down its write side without having sent a request
  that ends in the sentinel makes the worker leave its loop without an error and without
  sending a response. As stated this fails: the worker never looks for the sentinel. A
  client that sends the two bytes \<^verbatim>\<open>ls\<close> and then shuts down gets the output of the command.
\<close>

theorem unterminated_request_is_answered:
  "NUL \<notin> set ''ls''
   \<and> handle_request ''localhost'' ''40000''
         [request ''ls'' (Some (''a'' @ [newline])), request [] None] server_init =
       (None,
        server_init\<lparr>ops := [Popen ''ls'', Send (''a'' @ [newline, NUL]), Pclose, Delete_host,
                            Delete_service, Shutdown_RDWR, Close_sess, Kill_SIGCHLD]\<rparr>)"
  by (simp add: handle_request_def request_step_def serve_request_def teardown_def server_init_def
      c_str_def NUL_def newline_def POLLIN_def BUFFERSIZE_def fgets_loop.simps proc_defs scenario_defs)

lemma request_step_idle:
  assumes "idle e" and "rv AND POLLIN = 0" and "rv AND POLLHUP = 0"
  shows "\<exists>rv' st'. request_step e (rv, st) = Continue (rv', st')
           \<and> rv' AND POLLIN = 0 \<and> rv' AND POLLHUP = 0
           \<and> stderr st' = stderr st \<and> ops st' = ops st"
  using assms
  by (cases "wv_ppoll e") (auto simp: request_step_def idle_def sigchld_handler_def Let_def)

lemma request_loop_idle:
  assumes "list_all idle idles" and "rv AND POLLIN = 0" and "rv AND POLLHUP = 0"
  shows "\<exists>rv' st'. request_loop (idles @ es) (rv, st) = request_loop es (rv', st')
           \<and> rv' AND POLLIN = 0 \<and> rv' AND POLLHUP = 0
           \<and> stderr st' = stderr st \<and> ops st' = ops st"
  using assms
proof (induction idles arbitrary: rv st)
  case Nil
  then show ?case by auto
next
  case (Cons e idles)
  from Cons.prems have e: "idle e" and rest: "list_all idle idles" by auto
  from request_step_idle [OF e Cons.prems(2,3), of st]
  obtain rv1 st1 where 1: "request_step e (rv, st) = Continue (rv1, st1)"
      "rv1 AND POLLIN = 0" "rv1 AND POLLHUP = 0" "stderr st1 = stderr st" "ops st1 = ops st"
    by blast
  from Cons.IH [OF rest 1(2,3), of st1]
  obtain rv' st' where 2: "request_loop (idles @ es) (rv1, st1) = request_loop es (rv', st')"
      "rv' AND POLLIN = 0" "rv' AND POLLHUP = 0" "stderr st' = stderr st1" "ops st' = ops st1"
    by blast
  show ?case
    using 1 2 by (intro exI [of _ rv'] exI [of _ st']) simp
qed

lemma request_step_closed:
  assumes "wv_ppoll hc = Returned n r" and "r AND POLLIN \<noteq> 0 \<or> r AND POLLHUP \<noteq> 0"
    and "wv_recv hc = ReadBytes []"
  shows "request_step hc (rv, st) = Break (r, st)"
  using assms by (auto simp: request_step_def serve_request_def)

text \<open>
  Claim C6, amended: when the peer shuts down its write side before the worker has
  received a single byte (every wait so far was idle, then the socket is readable with
  nothing to read, or is hung up), the worker leaves its loop by \<^verbatim>\<open>break\<close>, writes no
  diagnostic, sends nothing, and makes exactly the five calls that end a session.
\<close>

theorem half_close_before_any_byte:
  assumes "list_all idle idles"
    and "wv_ppoll hc = Returned n r" and "r AND POLLIN \<noteq> 0 \<or> r AND POLLHUP \<noteq> 0"
    and "wv_recv hc = ReadBytes []"
  shows "fst (handle_request host service (idles @ hc # rest) st) = None
         \<and> stderr (snd (handle_request host service (idles @ hc # rest) st)) = stderr st
         \<and> ops (snd (handle_request host service (idles @ hc # rest) st))
             = ops st @ [Delete_host, Delete_service, Shutdown_RDWR, Close_sess, Kill_SIGCHLD]"
proof -
  from request_loop_idle [OF assms(1), of 0 "hc # rest" st]
  obtain rv' st' where 1: "request_loop (idles @ hc # rest) (0, st) = request_loop (hc # rest) (rv', st')"
      "stderr st' = stderr st" "ops st' = ops st"
    by auto
  have "request_loop (hc # rest) (rv', st') = (None, st')"
    by (simp add: request_step_closed [OF assms(2,3,4)])
  with 1 show ?thesis
    by (simp add: handle_request_def teardown_def proc_defs)
qed

theorem half_close_before_any_byte_witness:
  "fst (handle_request ''localhost'' ''40000''
          [\<lparr>wv_ppoll = Returned 0 0, wv_recv = ReadErr, wv_popen = None, wv_send = SendReturned 0\<rparr>, request [] None]
          server_init) = None
   \<and> stderr (snd (handle_request ''localhost'' ''40000''
          [\<lparr>wv_ppoll = Returned 0 0, wv_recv = ReadErr, wv_popen = None, wv_send = SendReturned 0\<rparr>, request [] None]
          server_init)) = []
   \<and> ops (snd (handle_request ''localhost'' ''40000''
          [\<lparr>wv_ppoll = Returned 0 0, wv_recv = ReadErr, wv_popen = None, wv_send = SendReturned 0\<rparr>, request [] None]
          server_init)) = [Delete_host, Delete_service, Shutdown_RDWR, Close_sess, Kill_SIGCHLD]"
  using half_close_before_any_byte
          [of "[\<lparr>wv_ppoll = Returned 0 0, wv_recv = ReadErr, wv_popen = None, wv_send = SendReturned 0\<rparr>]"
              "request [] None" 1 POLLIN "''localhost''" "''40000''" "[]" server_init]
  by (simp add: idle_def request_def server_init_def POLLIN_def)

subsection \<open>The client's receive loop\<close>

lemma c_str_id: "NUL \<notin> set s \<Longrightarrow> c_str s = s"
  by (induction s) (auto simp: c_str_def)

lemma c_str_sentinel: "NUL \<notin> set s \<Longrightarrow> c_str (s @ [NUL]) = s"
  by (induction s) (auto simp: c_str_def)


text \<open>The first of several chunks of a message lies before the sentinel.\<close>

lemma chunk_split:
  assumes "c @ concat cs = p @ [NUL]" and "cs \<noteq> []" and "[] \<notin> set cs"
  shows "\<exists>p'. p = c @ p' \<and> concat cs = p' @ [NUL]"
proof -
  have ne: "concat cs \<noteq> []"
    using assms(2,3) by (cases cs) auto
  from assms(1) show ?thesis
    using ne by (auto simp: append_eq_append_conv2 append_eq_Cons_conv Cons_eq_append_conv)
qed

lemma recv_loop_chunks:
  assumes "NUL \<notin> set p" and "concat cs = p @ [NUL]" and "[] \<notin> set cs"
  shows "recv_loop (map ReadBytes cs @ rest) st =
           (None, st\<lparr>bytesread := bytesread st + of_nat (length p + 1),
                      stdout := stdout st @ concat (map (\<lambda>c. c_str c @ [newline]) cs)\<rparr>)"
  using assms
proof (induction cs arbitrary: p st)
  case Nil
  then show ?case by simp
next
  case (Cons c cs)
  have c_ne: "c \<noteq> []"
    using Cons.prems(3) by auto
  show ?case
  proof (cases "cs = []")
    case True
    with Cons.prems have "c = p @ [NUL]" by simp
    with True Cons.prems(1) show ?thesis
      by (simp add: c_str_sentinel)
  next
    case False
    from Cons.prems(2) have "c @ concat cs = p @ [NUL]" by simp
    from chunk_split [OF this False] Cons.prems(3)
    obtain p' where p': "p = c @ p'" "concat cs = p' @ [NUL]" by auto
    from p'(1) Cons.prems(1) have free: "NUL \<notin> set c" "NUL \<notin> set p'" by auto
    from free(1) c_ne have last: "last c \<noteq> NUL"
      using last_in_set by metis
    have tl: "[] \<notin> set cs" using Cons.prems(3) by auto
    show ?thesis
      using c_ne last p'(1) free(1)
      by (simp add: Cons.IH [OF free(2) p'(2) tl] c_str_id add.assoc)
  qed
qed

text \<open>The sum of a count and a length, read as a signed number, where it fits.\<close>

lemma sint_add_count:
  fixes a :: "32 word"
  assumes "0 \<le> sint a" and "sint a + int n < 2 ^ 31"
  shows "sint (a + of_nat n) = sint a + int n"
proof -
  from assms have small: "- (2 ^ 31) \<le> int n" "int n < 2 ^ 31"
    by simp_all
  have n: "sint (of_nat n :: 32 word) = int n"
    using signed_take_bit_int_eq_self [OF small] by (simp add: signed_of_nat)
  have "sint (a + of_nat n) = signed_take_bit 31 (sint a + int n)"
    by (simp add: sint_word_ariths n)
  also have "\<dots> = sint a + int n"
    using assms by (intro signed_take_bit_int_eq_self) simp_all
  finally show ?thesis .
qed

lemma c_str_chunks:
  assumes "NUL \<notin> set p" and "concat cs = p @ [NUL]" and "[] \<notin> set cs"
  shows "concat (map c_str cs) = p"
  using assms
proof (induction cs arbitrary: p)
  case Nil
  then show ?case by simp
next
  case (Cons c cs)
  show ?case
  proof (cases "cs = []")
    case True
    with Cons.prems show ?thesis by (simp add: c_str_sentinel)
  next
    case False
    from Cons.prems(2) have "c @ concat cs = p @ [NUL]" by simp
    from chunk_split [OF this False] Cons.prems(3)
    obtain p' where p': "p = c @ p'" "concat cs = p' @ [NUL]" by auto
    from p'(1) Cons.prems(1) have free: "NUL \<notin> set c" "NUL \<notin> set p'" by auto
    have tl: "[] \<notin> set cs" using Cons.prems(3) by auto
    show ?thesis
      using p'(1) by (simp add: Cons.IH [OF free(2) p'(2) tl] c_str_id free(1))
  qed
qed

text \<open>
  Claim C4 says that a response that ends in the sentinel is shown to the user in the same
  way whether it arrives in one chunk or split into several. As stated this fails: the
  client writes a newline after every chunk, so the response \<^verbatim>\<open>ab\<close> is shown as
  \<^verbatim>\<open>ab\<close> and a newline when it arrives whole, and as \<^verbatim>\<open>a\<close>, a newline, \<^verbatim>\<open>b\<close> and a
  newline when it arrives in two chunks.
\<close>

theorem single_chunk_shown_differently:
  "stdout (snd (recv_loop [ReadBytes ''a'', ReadBytes (''b'' @ [NUL])] client_init))
     \<noteq> stdout (snd (recv_loop [ReadBytes (''ab'' @ [NUL])] client_init))"
  by (simp add: NUL_def c_str_def client_init_def newline_def)

text \<open>
  Claim C4, amended: for every payload \<open>p\<close> without the sentinel byte and every split of
  \<open>p\<close> followed by the sentinel into non-empty chunks, the receive loop reads all the
  chunks and stops after the last, and writes each chunk (without the sentinel) followed by
  a newline; the chunks written, without the newlines the client adds, make up \<open>p\<close>
  whatever the split is. Where the count of bytes stays below \<open>2 ^ 31\<close>, the 32-bit
  count grows by the length of \<open>p\<close> plus one.
\<close>

theorem response_chunks:
  assumes "NUL \<notin> set p" and "concat cs = p @ [NUL]" and "[] \<notin> set cs"
    and "0 \<le> sint (bytesread st)" and "sint (bytesread st) + int (length p + 1) < 2 ^ 31"
  shows "recv_loop (map ReadBytes cs @ rest) st =
           (None, st\<lparr>bytesread := bytesread st + of_nat (length p + 1),
                      stdout := stdout st @ concat (map (\<lambda>c. c_str c @ [newline]) cs)\<rparr>)
         \<and> sint (bytesread (snd (recv_loop (map ReadBytes cs @ rest) st)))
             = sint (bytesread st) + int (length p + 1)
         \<and> concat (map c_str cs) = p"
  using recv_loop_chunks [OF assms(1-3)] c_str_chunks [OF assms(1-3)] sint_add_count [OF assms(4,5)]
  by simp

theorem response_chunks_witness:
  "NUL \<notin> set ''ab'' \<and> concat [''a'', ''b'' @ [NUL]] = ''ab'' @ [NUL] \<and> [] \<notin> set [''a'', ''b'' @ [NUL]]
   \<and> 0 \<le> sint (bytesread client_init)
   \<and> sint (bytesread client_init) + int (length ''ab'' + 1) < 2 ^ 31
   \<and> recv_loop [ReadBytes ''a'', ReadBytes (''b'' @ [NUL])] client_init =
        (None, client_init\<lparr>bytesread := 3, stdout := ''a'' @ [newline] @ ''b'' @ [newline]\<rparr>)
   \<and> sint (bytesread (snd (recv_loop [ReadBytes ''a'', ReadBytes (''b'' @ [NUL])] client_init))) = 3
   \<and> recv_loop [ReadBytes (''ab'' @ [NUL])] client_init =
        (None, client_init\<lparr>bytesread := 3, stdout := ''ab'' @ [newline]\<rparr>)"
  using response_chunks [of "''ab''" "[''a'', ''b'' @ [NUL]]" client_init "[]"]
    response_chunks [of "''ab''" "[''ab'' @ [NUL]]" client_init "[]"]
  by (simp add: NUL_def c_str_def client_init_def)

subsection \<open>The client's outer loop\<close>

text \<open>
  Claim C8: in the interactive loop, when the line read is \<^verbatim>\<open>exit\<close>, the client leaves
  the loop and ends (with status 0) without a \<^verbatim>\<open>write\<close> to the socket for that line: the
  only calls it still makes are the shutdown and the close of the session socket.
\<close>

theorem exit_sends_nothing:
  assumes "\<not> noninteractive st" and "r_line r = Some ''exit''"
  shows "fst (client_loop (r # rs) st) = Exited EXIT_SUCCESS
         \<and> ops (snd (client_loop (r # rs) st)) = ops st @ [Shutdown_RDWR, Close_sess]"
  using assms by (simp add: client_teardown_def proc_defs Let_def)

theorem exit_sends_nothing_witness:
  "\<not> noninteractive client_init
   \<and> r_line \<lparr>r_line = Some ''exit'', r_write = True, r_reads = []\<rparr> = Some ''exit''
   \<and> fst (client_loop [\<lparr>r_line = Some ''exit'', r_write = True, r_reads = []\<rparr>] client_init) = Exited EXIT_SUCCESS
   \<and> ops (snd (client_loop [\<lparr>r_line = Some ''exit'', r_write = True, r_reads = []\<rparr>] client_init))
       = [Shutdown_RDWR, Close_sess]"
  using exit_sends_nothing [of client_init "\<lparr>r_line = Some ''exit'', r_write = True, r_reads = []\<rparr>" "[]"]
  by (simp add: client_init_def)

subsection \<open>Responses end with one sentinel\<close>










subsection \<open>One command, one connection\<close>

text \<open>
  Claim C3 says that the client run with \<^verbatim>\<open>-c "echo 42"\<close> prints exactly \<^verbatim>\<open>42\<close> and
  one newline, exits with status 0, and that the server's counter then returns to 0 and
  the server exits. The first part fails: the client sets \<^verbatim>\<open>verboseOutput\<close> itself and
  writes a newline of its own after the chunk, so the standard output holds more.
\<close>

theorem echo_42_prints_more:
  "stdout (snd (client_main [Opt_c ''echo 42''] echo_42)) \<noteq> ''42'' @ [newline]"
  by (simp add: client_main_def client_init_def client_teardown_def c_str_def NUL_def newline_def
      tab_def show_int_def show_nat.simps proc_defs scenario_defs)

text \<open>
  Claim C3, amended: the client writes its status lines, the response \<^verbatim>\<open>42\<close> with the
  newline of \<^verbatim>\<open>echo\<close> followed by one newline of its own, and the line with the number
  of bytes (4); it sends the command with a NUL byte and exits with status 0. The worker
  runs \<^verbatim>\<open>echo 42\<close>, sends the output and a NUL byte, and ends the session when the
  client has closed. The server, with this one connection, leaves its loop with the
  counter at 0 and exits with status 0.
\<close>

theorem echo_42_scenario:
  "client_main [Opt_c ''echo 42''] echo_42 =
     (Exited 0,
      client_init\<lparr>stdout := ''Starting client ...'' @ [newline]
                     @ ''Connecting to 127.0.0.1:8888 ...'' @ [newline]
                     @ [tab] @ ''Attempt 1 ... Success.'' @ [newline]
                     @ ''42'' @ [newline, newline]
                     @ ''Received response from server of 4 bytes'' @ [newline]
                     @ ''Shutting down client...'' @ [newline],
                  ops := [Getaddrinfo ''8888'', Connect 8888, Write (''echo 42'' @ [NUL]),
                          Shutdown_RDWR, Close_sess],
                  command := ''echo 42'', noninteractive := True, bytesread := 4\<rparr>)
   \<and> handle_request ''localhost'' ''40000''
        [request (''echo 42'' @ [NUL]) (Some (''42'' @ [newline])), request [] None] server_init =
       (None,
        server_init\<lparr>ops := [Popen ''echo 42'', Send (''42'' @ [newline, NUL]), Pclose, Delete_host,
                            Delete_service, Shutdown_RDWR, Close_sess, Kill_SIGCHLD]\<rparr>)
   \<and> server_main [] one_worker =
       (Exited 0,
        server_init\<lparr>errno := ECHILD,
                    ops := [Getaddrinfo ''8888'', Bind 8888, Listen 64, Accept, Close_listen],
                    stillHandlingRequests := False\<rparr>)"
proof -
  have client: "client_main [Opt_c ''echo 42''] echo_42 =
     (Exited 0,
      client_init\<lparr>stdout := ''Starting client ...'' @ [newline]
                     @ ''Connecting to 127.0.0.1:8888 ...'' @ [newline]
                     @ [tab] @ ''Attempt 1 ... Success.'' @ [newline]
                     @ ''42'' @ [newline, newline]
                     @ ''Received response from server of 4 bytes'' @ [newline]
                     @ ''Shutting down client...'' @ [newline],
                  ops := [Getaddrinfo ''8888'', Connect 8888, Write (''echo 42'' @ [NUL]),
                          Shutdown_RDWR, Close_sess],
                  command := ''echo 42'', noninteractive := True, bytesread := 4\<rparr>)"
    by (simp add: client_main_def client_init_def client_teardown_def c_str_def NUL_def newline_def
        tab_def show_int_def show_nat.simps EXIT_SUCCESS_def proc_defs scenario_defs)
  have worker: "handle_request ''localhost'' ''40000''
        [request (''echo 42'' @ [NUL]) (Some (''42'' @ [newline])), request [] None] server_init =
       (None,
        server_init\<lparr>ops := [Popen ''echo 42'', Send (''42'' @ [newline, NUL]), Pclose, Delete_host,
                            Delete_service, Shutdown_RDWR, Close_sess, Kill_SIGCHLD]\<rparr>)"
    by (simp add: handle_request_def request_step_def serve_request_def teardown_def server_init_def
        c_str_def NUL_def newline_def POLLIN_def BUFFERSIZE_def fgets_loop.simps proc_defs scenario_defs)
  have server: "server_main [] one_worker =
       (Exited 0,
        server_init\<lparr>errno := ECHILD,
                    ops := [Getaddrinfo ''8888'', Bind 8888, Listen 64, Accept, Close_listen],
                    stillHandlingRequests := False\<rparr>)"
    by (simp add: server_main_def server_startup_def open_listener_def announce_def serve_def
        server_init_def loop_defs sigchld_handler_def proc_defs scenario_defs strtoul_def
        strtoul_end_def isspace_def ULONG_MAX_def isdigit_def decimal_def digit_of_def EINTR_def
        ECHILD_def POLLIN_def)
  from client worker server show ?thesis by simp
qed

subsection \<open>The verbose flag\<close>

lemma observable_eq_iff:
  "observable a = observable b \<longleftrightarrow>
     errno a = errno b \<and> stderr a = stderr b \<and> ops a = ops b \<and> actvConns a = actvConns b
     \<and> stillHandlingRequests a = stillHandlingRequests b \<and> port a = port b"
  by (cases a, cases b) (auto simp: observable_def)

lemma observable_verboseprint [simp]: "observable (verboseprint text st) = observable st"
  by (simp add: observable_def verboseprint_def)

lemma observable_flag [simp]: "observable (st\<lparr>verboseOutput := v\<rparr>) = observable st"
  by (simp add: observable_def)

lemma verboseprint_fields [simp]:
  "errno (verboseprint text st) = errno st"
  "stderr (verboseprint text st) = stderr st"
  "ops (verboseprint text st) = ops st"
  "actvConns (verboseprint text st) = actvConns st"
  "stillHandlingRequests (verboseprint text st) = stillHandlingRequests st"
  "port (verboseprint text st) = port st"
  by (simp_all add: verboseprint_def)

lemma port_call [simp]: "port (call c st) = port st"
  by (simp add: call_def)

lemma ppoll_obs:
  assumes "observable a = observable b"
  shows "fst (ppoll po rv a) = fst (ppoll po rv b)
         \<and> fst (snd (ppoll po rv a)) = fst (snd (ppoll po rv b))
         \<and> observable (snd (snd (ppoll po rv a))) = observable (snd (snd (ppoll po rv b)))"
  using assms by (cases po) (auto simp: observable_eq_iff sigchld_handler_def Let_def)

lemma serve_request_obs:
  assumes "observable a = observable b"
  shows "map_step observable (serve_request e a) = map_step observable (serve_request e b)"
  using assms
  by (auto simp: serve_request_def observable_eq_iff proc_defs Let_def
      split: read_result.splits option.splits send_outcome.splits)

lemma lift_step_obs:
  assumes "map_step f x = map_step f y"
  shows "map_step (apsnd f)
           (case x of Continue s \<Rightarrow> Continue (rv, s) | Break s \<Rightarrow> Break (rv, s)
            | Ended oc s \<Rightarrow> Ended oc (rv, s))
         = map_step (apsnd f)
           (case y of Continue s \<Rightarrow> Continue (rv, s) | Break s \<Rightarrow> Break (rv, s)
            | Ended oc s \<Rightarrow> Ended oc (rv, s))"
  using assms by (cases x; cases y; simp)

lemma request_step_obs:
  assumes "observable a = observable b"
  shows "map_step (apsnd observable) (request_step e (rv, a))
         = map_step (apsnd observable) (request_step e (rv, b))"
proof -
  obtain pa ra a1 where a1: "ppoll (wv_ppoll e) rv a = (pa, ra, a1)"
    by (cases "ppoll (wv_ppoll e) rv a") auto
  obtain pb rb b1 where b1: "ppoll (wv_ppoll e) rv b = (pb, rb, b1)"
    by (cases "ppoll (wv_ppoll e) rv b") auto
  from ppoll_obs [OF assms, of "wv_ppoll e" rv] a1 b1
  have eq: "pa = pb" "ra = rb" "observable a1 = observable b1" by auto
  from eq(3) have err: "errno a1 = errno b1"
    by (simp add: observable_eq_iff)
  from eq(3) have "observable (perror ''Error with ppoll() in handle_request()'' a1)
      = observable (perror ''Error with ppoll() in handle_request()'' b1)"
    by (simp add: observable_eq_iff perror_def)
  with a1 b1 eq err lift_step_obs [OF serve_request_obs [OF eq(3), of e], where rv = rb] show ?thesis
    by (simp add: request_step_def)
qed

lemma request_loop_obs:
  assumes "observable a = observable b"
  shows "fst (request_loop evs (rv, a)) = fst (request_loop evs (rv, b))
         \<and> observable (snd (request_loop evs (rv, a))) = observable (snd (request_loop evs (rv, b)))"
  using assms
proof (induction evs arbitrary: rv a b)
  case Nil
  then show ?case by simp
next
  case (Cons e evs)
  note step = request_step_obs [OF Cons.prems, of e rv]
  show ?case
  proof (cases "request_step e (rv, a)")
    case (Continue sa)
    with step obtain sb where sb: "request_step e (rv, b) = Continue sb"
        and "apsnd observable sa = apsnd observable sb"
      by (cases "request_step e (rv, b)") auto
    then obtain r1 a1 b1 where 1: "sa = (r1, a1)" "sb = (r1, b1)" "observable a1 = observable b1"
      by (cases sa; cases sb) auto
    from Cons.IH [OF 1(3), of r1] Continue sb 1 show ?thesis
      by simp
  next
    case (Break sa)
    with step obtain sb where sb: "request_step e (rv, b) = Break sb"
        and "apsnd observable sa = apsnd observable sb"
      by (cases "request_step e (rv, b)") auto
    then have "observable (snd sa) = observable (snd sb)"
      by (cases sa; cases sb) auto
    with Break sb show ?thesis
      by simp
  next
    case (Ended oc sa)
    with step obtain sb where sb: "request_step e (rv, b) = Ended oc sb"
        and "apsnd observable sa = apsnd observable sb"
      by (cases "request_step e (rv, b)") auto
    then have "observable (snd sa) = observable (snd sb)"
      by (cases sa; cases sb) auto
    with Ended sb show ?thesis
      by simp
  qed
qed

lemma teardown_obs:
  assumes "observable a = observable b"
  shows "observable (teardown host service a) = observable (teardown host service b)"
  using assms by (simp add: teardown_def observable_eq_iff proc_defs)

lemma handle_request_obs:
  assumes "observable a = observable b"
  shows "fst (handle_request host service evs a) = fst (handle_request host service evs b)
         \<and> observable (snd (handle_request host service evs a))
             = observable (snd (handle_request host service evs b))"
proof -
  obtain oa a1 where a1: "request_loop evs (0, a) = (oa, a1)"
    by (cases "request_loop evs (0, a)") auto
  obtain ob b1 where b1: "request_loop evs (0, b) = (ob, b1)"
    by (cases "request_loop evs (0, b)") auto
  from request_loop_obs [OF assms, of evs 0] a1 b1
  have "oa = ob" "observable a1 = observable b1" by auto
  with a1 b1 teardown_obs [of a1 b1 host service] show ?thesis
    by (cases ob) (simp_all add: handle_request_def)
qed

lemma identify_obs:
  assumes "observable a = observable b"
  shows "observable (identify e a) = observable (identify e b)"
  using assms by (cases "ev_names e") (simp_all add: identify_def observable_eq_iff cerr_def)

lemma admit_obs:
  assumes "observable a = observable b"
  shows "map_step observable (admit e a) = map_step observable (admit e b)"
proof (cases "ev_accept e")
  case False
  with assms show ?thesis
    by (simp add: admit_def observable_eq_iff perror_def)
next
  case True
  define a3 where "a3 = identify e (call Accept a)"
  define b3 where "b3 = identify e (call Accept b)"
  from assms have "observable (call Accept a) = observable (call Accept b)"
    by (simp add: observable_eq_iff call_def)
  then have 3: "observable a3 = observable b3"
    unfolding a3_def b3_def by (rule identify_obs)
  show ?thesis
  proof (cases "ev_fork e")
    case ForkFailed
    from 3 have "observable (cerr (''Could not fork process. Aborting.'' @ [newline]) a3)
        = observable (cerr (''Could not fork process. Aborting.'' @ [newline]) b3)"
      by (simp add: observable_eq_iff cerr_def)
    with True ForkFailed show ?thesis
      by (simp add: admit_def a3_def b3_def)
  next
    case ForkChild
    obtain oa a4 where a4: "handle_request (fst (peer e)) (snd (peer e)) (ev_worker e) a3 = (oa, a4)"
      by (cases "handle_request (fst (peer e)) (snd (peer e)) (ev_worker e) a3") auto
    obtain ob b4 where b4: "handle_request (fst (peer e)) (snd (peer e)) (ev_worker e) b3 = (ob, b4)"
      by (cases "handle_request (fst (peer e)) (snd (peer e)) (ev_worker e) b3") auto
    from handle_request_obs [OF 3, of "fst (peer e)" "snd (peer e)" "ev_worker e"] a4 b4
    have "oa = ob" "observable a4 = observable b4" by auto
    with True ForkChild a4 b4 show ?thesis
      by (cases ob) (simp_all add: admit_def a3_def [symmetric] b3_def [symmetric])
  next
    case ForkParent
    from 3 have "actvConns a3 = actvConns b3"
        "observable (a3\<lparr>actvConns := actvConns a3 + 1\<rparr>) = observable (b3\<lparr>actvConns := actvConns b3 + 1\<rparr>)"
      by (simp_all add: observable_eq_iff)
    with True ForkParent show ?thesis
      by (simp add: admit_def Let_def a3_def [symmetric] b3_def [symmetric])
  qed
qed

lemma admission_step_obs:
  assumes "observable a = observable b"
  shows "map_step observable (admission_step e a) = map_step observable (admission_step e b)"
proof -
  obtain pa ra a1 where a1: "ppoll (ev_ppoll e) 0 a = (pa, ra, a1)"
    by (cases "ppoll (ev_ppoll e) 0 a") auto
  obtain pb rb b1 where b1: "ppoll (ev_ppoll e) 0 b = (pb, rb, b1)"
    by (cases "ppoll (ev_ppoll e) 0 b") auto
  from ppoll_obs [OF assms, of "ev_ppoll e" 0] a1 b1
  have eq: "pa = pb" "observable a1 = observable b1" by auto
  from eq(2) have fields: "errno a1 = errno b1" "stillHandlingRequests a1 = stillHandlingRequests b1"
      "observable (perror ''Error in ppoll()'' a1) = observable (perror ''Error in ppoll()'' b1)"
    by (simp_all add: observable_eq_iff perror_def)
  from a1 b1 eq fields admit_obs [OF eq(2), of e] show ?thesis
    by (simp add: admission_step_def)
qed

lemma main_loop_obs:
  assumes "observable a = observable b"
  shows "fst (main_loop evs a) = fst (main_loop evs b)
         \<and> observable (snd (main_loop evs a)) = observable (snd (main_loop evs b))"
  using assms
proof (induction evs arbitrary: a b)
  case Nil
  then show ?case by simp
next
  case (Cons e evs)
  note step = admission_step_obs [OF Cons.prems, of e]
  show ?case
  proof (cases "admission_step e a")
    case (Continue a1)
    with step obtain b1 where b1: "admission_step e b = Continue b1"
        and 1: "observable a1 = observable b1"
      by (cases "admission_step e b") auto
    from Cons.IH [OF 1] Continue b1 show ?thesis
      by simp
  next
    case (Break a1)
    with step obtain b1 where "admission_step e b = Break b1" "observable a1 = observable b1"
      by (cases "admission_step e b") auto
    with Break show ?thesis
      by simp
  next
    case (Ended oc a1)
    with step obtain b1 where "admission_step e b = Ended oc b1" "observable a1 = observable b1"
      by (cases "admission_step e b") auto
    with Ended show ?thesis
      by simp
  qed
qed

lemma mop_up_obs:
  assumes "observable a = observable b"
  shows "fst (mop_up ws a) = fst (mop_up ws b)
         \<and> observable (snd (mop_up ws a)) = observable (snd (mop_up ws b))"
  using assms
proof (induction ws arbitrary: a b)
  case Nil
  then show ?case by simp
next
  case (Cons w ws)
  define a1 where "a1 = (case w of Reaped \<Rightarrow> a | WaitFailed e \<Rightarrow> a\<lparr>errno := e\<rparr>)"
  define b1 where "b1 = (case w of Reaped \<Rightarrow> b | WaitFailed e \<Rightarrow> b\<lparr>errno := e\<rparr>)"
  from Cons.prems have 1: "observable a1 = observable b1"
    by (cases w) (simp_all add: a1_def b1_def observable_eq_iff)
  then have "errno a1 = errno b1"
    by (simp add: observable_eq_iff)
  with 1 Cons.IH [OF 1] show ?case
    by (simp add: Let_def a1_def [symmetric] b1_def [symmetric])
qed

lemma serve_obs:
  assumes "observable a = observable b"
  shows "fst (serve env a) = fst (serve env b)
         \<and> observable (snd (serve env a)) = observable (snd (serve env b))"
proof -
  obtain oa a1 where a1: "main_loop (se_events env) a = (oa, a1)"
    by (cases "main_loop (se_events env) a") auto
  obtain ob b1 where b1: "main_loop (se_events env) b = (ob, b1)"
    by (cases "main_loop (se_events env) b") auto
  from main_loop_obs [OF assms, of "se_events env"] a1 b1
  have 1: "oa = ob" "observable a1 = observable b1" by auto
  obtain fa a2 where a2: "mop_up (se_waitpid env) a1 = (fa, a2)"
    by (cases "mop_up (se_waitpid env) a1") auto
  obtain fb b2 where b2: "mop_up (se_waitpid env) b1 = (fb, b2)"
    by (cases "mop_up (se_waitpid env) b1") auto
  from mop_up_obs [OF 1(2), of "se_waitpid env"] a2 b2
  have 2: "fa = fb" "observable a2 = observable b2" by auto
  from 2(2) have "observable (call Close_listen (verboseprint (''Shutting down server.'' @ [newline]) a2))
      = observable (call Close_listen (verboseprint (''Shutting down server.'' @ [newline]) b2))"
    by (simp add: observable_eq_iff proc_defs)
  with a1 b1 1 a2 b2 2 show ?thesis
    by (cases ob; cases fb) (simp_all add: serve_def)
qed

lemma bind_loop_obs:
  assumes "observable a = observable b"
  shows "fst (bind_loop addrs a) = fst (bind_loop addrs b)
         \<and> observable (snd (bind_loop addrs a)) = observable (snd (bind_loop addrs b))"
  using assms
proof (induction addrs arbitrary: a b)
  case Nil
  then show ?case by simp
next
  case (Cons x addrs)
  from Cons.prems have 1: "observable (call (Bind (ai_port x)) a) = observable (call (Bind (ai_port x)) b)"
      and 2: "observable (call Close_unused (call (Bind (ai_port x)) a))
              = observable (call Close_unused (call (Bind (ai_port x)) b))"
    by (simp_all add: observable_eq_iff call_def)
  from Cons.IH [OF Cons.prems] Cons.IH [OF 2] 1 show ?case
    by simp
qed

lemma announce_obs:
  assumes "observable a = observable b"
  shows "observable (announce a) = observable (announce b)"
  using assms by (simp add: announce_def observable_eq_iff call_def)

lemma open_listener_obs:
  assumes "observable a = observable b"
  shows "fst (open_listener env a) = fst (open_listener env b)
         \<and> observable (snd (open_listener env a)) = observable (snd (open_listener env b))"
proof -
  from assms have port: "port a = port b"
    by (simp add: observable_eq_iff)
  note pre = announce_obs [OF assms]
  show ?thesis
  proof (cases "se_getaddrinfo env (port b)")
    case (GaiError msg)
    with port pre show ?thesis
      by (simp add: open_listener_def observable_eq_iff cerr_def)
  next
    case (GaiOk addrs)
    obtain ra a4 where a4: "bind_loop addrs (announce a) = (ra, a4)"
      by (cases "bind_loop addrs (announce a)") auto
    obtain rb b4 where b4: "bind_loop addrs (announce b) = (rb, b4)"
      by (cases "bind_loop addrs (announce b)") auto
    from bind_loop_obs [OF pre, of addrs] a4 b4
    have "ra = rb" "observable a4 = observable b4" by auto
    with GaiOk port a4 b4 show ?thesis
      by (cases rb) (simp_all add: open_listener_def observable_eq_iff proc_defs)
  qed
qed

lemma server_options_obs:
  assumes "observable a = observable b"
  shows "fst (server_options name (filter (\<lambda>x. x \<noteq> SOpt_v) opts) a) = fst (server_options name opts b)
         \<and> observable (snd (server_options name (filter (\<lambda>x. x \<noteq> SOpt_v) opts) a))
             = observable (snd (server_options name opts b))"
  using assms
proof (induction opts arbitrary: a b)
  case Nil
  then show ?case by simp
next
  case (Cons x opts)
  show ?case
  proof (cases x)
    case (SOpt_p optarg)
    obtain v e where s: "strtoul optarg = (v, e)"
      by (cases "strtoul optarg") auto
    define a1 where "a1 = (case e of None \<Rightarrow> a | Some v \<Rightarrow> a\<lparr>errno := v\<rparr>)"
    define b1 where "b1 = (case e of None \<Rightarrow> b | Some v \<Rightarrow> b\<lparr>errno := v\<rparr>)"
    from Cons.prems have 1: "observable a1 = observable b1"
      by (cases e) (simp_all add: a1_def b1_def observable_eq_iff)
    then have 2: "errno a1 = errno b1"
        "observable (cerr (''Bad port, got: '' @ optarg @ [newline]) a1)
           = observable (cerr (''Bad port, got: '' @ optarg @ [newline]) b1)"
        "observable (a1\<lparr>port := optarg\<rparr>) = observable (b1\<lparr>port := optarg\<rparr>)"
      by (simp_all add: observable_eq_iff cerr_def)
    from SOpt_p s 2 Cons.IH [OF 2(3)] show ?thesis
      by (simp add: Let_def a1_def [symmetric] b1_def [symmetric])
  next
    case SOpt_h
    with Cons.prems show ?thesis by (simp add: observable_eq_iff)
  next
    case SOpt_v
    have "observable a = observable (b\<lparr>verboseOutput := True\<rparr>)"
      using Cons.prems by simp
    from Cons.IH [OF this] SOpt_v show ?thesis by simp
  next
    case SOpt_query
    with Cons.prems show ?thesis by (simp add: observable_eq_iff)
  next
    case SOpt_other
    with Cons.prems show ?thesis by simp
  qed
qed

lemma server_main_obs:
  "fst (server_main (filter (\<lambda>x. x \<noteq> SOpt_v) opts) env) = fst (server_main opts env)
   \<and> observable (snd (server_main (filter (\<lambda>x. x \<noteq> SOpt_v) opts) env))
       = observable (snd (server_main opts env))"
proof (cases "se_sigprocmask env")
  case False
  then show ?thesis
    by (simp add: server_main_def server_startup_def)
next
  case True
  obtain oa a1 where a1: "server_options (se_name env) (filter (\<lambda>x. x \<noteq> SOpt_v) opts) server_init = (oa, a1)"
    by (cases "server_options (se_name env) (filter (\<lambda>x. x \<noteq> SOpt_v) opts) server_init") auto
  obtain ob b1 where b1: "server_options (se_name env) opts server_init = (ob, b1)"
    by (cases "server_options (se_name env) opts server_init") auto
  from server_options_obs [of server_init server_init "se_name env" opts] a1 b1
  have 1: "oa = ob" "observable a1 = observable b1" by auto
  show ?thesis
  proof (cases ob)
    case (Some oc)
    with True a1 b1 1 show ?thesis
      by (simp add: server_main_def server_startup_def)
  next
    case None
    obtain la a2 where a2: "open_listener env a1 = (la, a2)"
      by (cases "open_listener env a1") auto
    obtain lb b2 where b2: "open_listener env b1 = (lb, b2)"
      by (cases "open_listener env b1") auto
    from open_listener_obs [OF 1(2), of env] a2 b2
    have 2: "la = lb" "observable a2 = observable b2" by auto
    from True None a1 b1 1 a2 b2 2 serve_obs [OF 2(2), of env] show ?thesis
      by (cases lb) (simp_all add: server_main_def server_startup_def)
  qed
qed

text \<open>
  Claim C10: whatever the options and the answers of the environment are, the server
  behaves in the same way with and without \<^verbatim>\<open>-v\<close>, but for its standard output: the
  process ends in the same way with the same calls (the bytes sent on the session sockets
  among them), the same counter, the same flag and the same diagnostics; so does a worker
  started from any state with the flag set or cleared. The counter is incremented for
  every connection admitted, in the argument of \<^verbatim>\<open>verboseprint\<close>, whatever the flag
  is (the iteration does nothing of the kind only when \<^verbatim>\<open>errno\<close> already holds
  \<^verbatim>\<open>EINTR\<close>, where the loop is left before \<^verbatim>\<open>accept\<close>).
\<close>

theorem verbose_flag_unobservable:
  "fst (server_main (filter (\<lambda>x. x \<noteq> SOpt_v) opts) env) = fst (server_main opts env)
   \<and> observable (snd (server_main (filter (\<lambda>x. x \<noteq> SOpt_v) opts) env))
       = observable (snd (server_main opts env))
   \<and> fst (handle_request host service evs (st\<lparr>verboseOutput := True\<rparr>))
       = fst (handle_request host service evs (st\<lparr>verboseOutput := False\<rparr>))
   \<and> ops (snd (handle_request host service evs (st\<lparr>verboseOutput := True\<rparr>)))
       = ops (snd (handle_request host service evs (st\<lparr>verboseOutput := False\<rparr>)))
   \<and> actvConns (state_of (admission_step (accepted h s) st))
       = (if errno st = EINTR then actvConns st else actvConns st + 1)"
proof -
  have "observable (st\<lparr>verboseOutput := True\<rparr>) = observable (st\<lparr>verboseOutput := False\<rparr>)"
    by simp
  from handle_request_obs [OF this, of host service evs]
  have worker: "fst (handle_request host service evs (st\<lparr>verboseOutput := True\<rparr>))
       = fst (handle_request host service evs (st\<lparr>verboseOutput := False\<rparr>))
     \<and> ops (snd (handle_request host service evs (st\<lparr>verboseOutput := True\<rparr>)))
       = ops (snd (handle_request host service evs (st\<lparr>verboseOutput := False\<rparr>)))"
    by (simp add: observable_eq_iff)
  have count: "actvConns (state_of (admission_step (accepted h s) st))
       = (if errno st = EINTR then actvConns st else actvConns st + 1)"
    by (simp add: loop_defs accepted_def proc_defs Let_def)
  from server_main_obs [of opts env] worker count show ?thesis
    by simp
qed

end
